theory Spec2Isabelle
  imports Main "HOL-Library.Sublist"
begin

section \<open>Strings and the characters the scaffold treats specially\<close>

text \<open>
  A Python \<open>str\<close> is modelled as a \<open>string\<close>, the list of the bytes of its UTF-8
  encoding. Every operation of the scaffold inspects ASCII characters only and copies all
  other characters unchanged, and no byte of a multi-byte UTF-8 sequence is an ASCII
  character, so working on the bytes and working on the code points agree.
\<close>

definition backslash :: char where
  "backslash = CHR 0x5C"

definition dquote :: char where
  "dquote = CHR 0x22"

definition dollar :: char where
  "dollar = CHR 0x24"

definition backtick :: char where
  "backtick = CHR 0x60"

definition squote :: char where
  "squote = CHR 0x27"

definition newline :: char where
  "newline = CHR 0x0A"

lemmas special_chars = backslash_def dquote_def dollar_def backtick_def squote_def newline_def

text \<open>
  \<open>text.replace(old, new)\<close> of Python for a pattern \<open>old\<close> that is a single character
  (the only way the scaffold calls it): every occurrence of \<open>old\<close>, left to right, is
  replaced by \<open>new\<close>; the replacement text is not scanned again.
\<close>

fun str_replace :: "string \<Rightarrow> char \<Rightarrow> string \<Rightarrow> string" where
  "str_replace [] old new = []"
| "str_replace (c # cs) old new =
     (if c = old then new @ str_replace cs old new else c # str_replace cs old new)"

section \<open>\<open>base.py\<close>: the supported models\<close>

definition SUPPORTED_MODELS :: "string list" where
  "SUPPORTED_MODELS =
     [''claude-sonnet-4-5-20250929'',
      ''claude-opus-4-5-20251101'',
      ''claude-haiku-4-5-20251001'',
      ''gemini-3-pro'',
      ''deepseek-chat'']"

definition DEFAULT_MODEL :: string where
  "DEFAULT_MODEL = ''claude-sonnet-4-5-20250929''"

section \<open>\<open>claudecode.py\<close>: \<open>_escape_for_shell\<close>\<close>

text \<open>
  Four replacements in sequence, each on the result of the one before:
  backslash, double quote, dollar sign, backtick.
\<close>

definition escape_for_shell :: "string \<Rightarrow> string" where
  "escape_for_shell text =
     (let text = str_replace text backslash [backslash, backslash];
          text = str_replace text dquote [backslash, dquote];
          text = str_replace text dollar [backslash, dollar];
          text = str_replace text backtick [backslash, backtick]
      in text)"

section \<open>\<open>json.dumps(settings, ensure_ascii=False)\<close>\<close>

text \<open>
  The values the scaffold serialises: strings, lists and dictionaries (a dictionary keeps
  its keys in insertion order, so it is a list of pairs).
\<close>

datatype json = JStr string | JList "json list" | JDict "(string \<times> json) list"

text \<open>\<open>sep.join(items)\<close>.\<close>

fun join :: "string \<Rightarrow> string list \<Rightarrow> string" where
  "join sep [] = []"
| "join sep [x] = x"
| "join sep (x # y # ys) = x @ sep @ join sep (y # ys)"

definition hexdigit :: "nat \<Rightarrow> char" where
  "hexdigit n = ''0123456789abcdef'' ! (n mod 16)"

text \<open>
  The escape table of the encoder of the \<open>json\<close> module when \<open>ensure_ascii\<close> is off:
  backslash, double quote and the control characters below U+0020 are escaped (the five
  short forms, \<open>\u00XX\<close> for the others), every other character is copied.
\<close>

definition json_escape_char :: "char \<Rightarrow> string" where
  "json_escape_char c =
     (if c = backslash then [backslash, backslash]
      else if c = dquote then [backslash, dquote]
      else if c = CHR 0x08 then [backslash, CHR ''b'']
      else if c = CHR 0x0C then [backslash, CHR ''f'']
      else if c = CHR 0x0A then [backslash, CHR ''n'']
      else if c = CHR 0x0D then [backslash, CHR ''r'']
      else if c = CHR 0x09 then [backslash, CHR ''t'']
      else if (of_char c :: nat) < 0x20 then
        [backslash, CHR ''u'', CHR ''0'', CHR ''0'',
         hexdigit ((of_char c :: nat) div 16), hexdigit ((of_char c :: nat) mod 16)]
      else [c])"

definition encode_basestring :: "string \<Rightarrow> string" where
  "encode_basestring s = [dquote] @ concat (map json_escape_char s) @ [dquote]"

text \<open>With the default separators \<open>', '\<close> and \<open>': '\<close> and no indentation.\<close>

fun json_dumps :: "json \<Rightarrow> string" where
  "json_dumps (JStr s) = encode_basestring s"
| "json_dumps (JList xs) = ''['' @ join '', '' (map json_dumps xs) @ '']''"
| "json_dumps (JDict kvs) =
     ''{'' @ join '', '' (map (\<lambda>kv. encode_basestring (fst kv) @ '': '' @ json_dumps (snd kv)) kvs)
       @ ''}''"

section \<open>\<open>claudecode.py\<close>: \<open>ClaudeCodeScaffold\<close>\<close>

definition ALLOWED_PERMISSIONS :: "string list" where
  "ALLOWED_PERMISSIONS =
     [''Bash(*)'',
      ''Write(*)'',
      ''Edit(*)'',
      ''Read(*)'',
      ''WebFetch(*)'',
      ''TodoRead(*)'',
      ''TodoWrite(*)'',
      ''Task(*)'',
      ''Glob(*)'',
      ''Grep(*)'',
      ''LS(*)'']"

text \<open>An optional argument (\<open>Optional[str] = None\<close>) is a \<open>string option\<close>.\<close>

definition get_docker_env :: "string \<Rightarrow> string option \<Rightarrow> (string \<rightharpoonup> string)" where
  "get_docker_env proxy_url model =
     [''ANTHROPIC_BASE_URL'' \<mapsto> proxy_url,
      ''ANTHROPIC_API_KEY'' \<mapsto> ''fake-key'']"

definition get_setup_script :: "string \<Rightarrow> string option \<Rightarrow> string" where
  "get_setup_script proxy_url model =
     (let settings =
            JDict [(''env'', JDict [(''ANTHROPIC_BASE_URL'', JStr proxy_url)]),
                   (''permissions'', JDict [(''allow'', JList (map JStr ALLOWED_PERMISSIONS))])];
          settings_json = json_dumps settings
      in ''mkdir -p ~/.claude && echo '' @ [squote] @ settings_json @ [squote]
           @ '' > ~/.claude/settings.json'')"

text \<open>
  \<open>model or DEFAULT_MODEL\<close>: Python's \<open>or\<close> returns its right operand when the left
  one is false, and both \<open>None\<close> and the empty string are false.
\<close>

definition or_default :: "string option \<Rightarrow> string \<Rightarrow> string" where
  "or_default x d = (case x of None \<Rightarrow> d | Some s \<Rightarrow> if s = [] then d else s)"

text \<open>
  The loop of \<open>build_commands\<close>: \<open>i\<close> is the index \<open>enumerate\<close> gives, \<open>commands\<close>
  the list built so far. \<open>if system_prompt:\<close> is false for \<open>None\<close> and for the empty
  string.
\<close>

fun build_commands_loop ::
  "string \<Rightarrow> string option \<Rightarrow> nat \<Rightarrow> string list \<Rightarrow> string list \<Rightarrow> string list" where
  \<open>build_commands_loop model_name system_prompt i [] commands = commands\<close>
| \<open>build_commands_loop model_name system_prompt i (query # queries) commands =
     (let escaped_query = escape_for_shell query;
          cmd =
            (if i = 0 then
               (let base_cmd = ''claude --model '' @ model_name @ '' --dangerously-skip-permissions''
                in case system_prompt of
                     None \<Rightarrow> base_cmd @ '' -p "'' @ escaped_query @ ''"''
                   | Some sp \<Rightarrow>
                       if sp \<noteq> [] then
                         (let escaped_sp = escape_for_shell sp
                          in base_cmd @ '' -p "'' @ escaped_query @ ''" --system-prompt "''
                               @ escaped_sp @ ''"'')
                       else base_cmd @ '' -p "'' @ escaped_query @ ''"'')
             else ''claude --dangerously-skip-permissions -c -p "'' @ escaped_query @ ''"'')
      in build_commands_loop model_name system_prompt (Suc i) queries (commands @ [cmd]))\<close>

definition build_commands :: "string list \<Rightarrow> string option \<Rightarrow> string option \<Rightarrow> string list" where
  "build_commands queries system_prompt model =
     (let model_name = or_default model DEFAULT_MODEL
      in build_commands_loop model_name system_prompt 0 queries [])"

section \<open>The two forms of a command\<close>

text \<open>
  Names for the texts the loop of \<open>build_commands\<close> produces, to state its properties:
  the command of the first query, with its optional system prompt, and the command of a
  later query.
\<close>

definition system_prompt_option :: "string option \<Rightarrow> string" where
  \<open>system_prompt_option system_prompt =
     (case system_prompt of
        None \<Rightarrow> []
      | Some sp \<Rightarrow> if sp = [] then [] else '' --system-prompt "'' @ escape_for_shell sp @ ''"'')\<close>

definition first_command :: "string \<Rightarrow> string option \<Rightarrow> string \<Rightarrow> string" where
  \<open>first_command model_name system_prompt query =
     ''claude --model '' @ model_name @ '' --dangerously-skip-permissions -p "''
       @ escape_for_shell query @ ''"'' @ system_prompt_option system_prompt\<close>

definition continuation_command :: "string \<Rightarrow> string" where
  \<open>continuation_command query =
     ''claude --dangerously-skip-permissions -c -p "'' @ escape_for_shell query @ ''"''\<close>

section \<open>The reading of a double-quoted string by a POSIX shell\<close>

text \<open>
  The specification side of the escaping claim. \<open>escape_char\<close> is the rule as the
  specification words it: each of the four characters gets one backslash in front, every
  other character stays as it is.
\<close>

definition is_special :: "char \<Rightarrow> bool" where
  "is_special c = (c = backslash \<or> c = dquote \<or> c = dollar \<or> c = backtick)"

definition escape_char :: "char \<Rightarrow> string" where
  "escape_char c = (if is_special c then [backslash, c] else [c])"

text \<open>
  \<open>dq_read\<close> reads the input that follows an opening double quote, by the quoting rules
  of the POSIX shell (Shell Command Language, 2.2.3): an unescaped double quote ends the
  string; a backslash quotes the next character when that is a backslash, a double quote,
  a dollar sign or a backtick, joins lines before a newline, and is an ordinary character
  otherwise; an unescaped dollar sign or backtick starts an expansion. The result is the
  literal text the string denotes with the input left after the closing quote, or \<open>None\<close>
  when the string is not closed or holds an expansion (then it denotes no literal text).
\<close>

fun dq_read :: "string \<Rightarrow> (string \<times> string) option" where
  "dq_read [] = None"
| "dq_read (c # cs) =
     (if c = dquote then Some ([], cs)
      else if c = dollar \<or> c = backtick then None
      else if c = backslash then
        (case cs of
           [] \<Rightarrow> None
         | d # ds \<Rightarrow>
             if is_special d then map_option (\<lambda>(w, r). (d # w, r)) (dq_read ds)
             else if d = newline then dq_read ds
             else map_option (\<lambda>(w, r). (backslash # d # w, r)) (dq_read ds))
      else map_option (\<lambda>(w, r). (c # w, r)) (dq_read cs))"

lemma dq_read_shorter: "dq_read s = Some (w, r) \<Longrightarrow> length r < length s"
proof (induction s arbitrary: w r rule: length_induct)
  case (1 s)
  have IH: "\<And>t w' r'. length t < length s \<Longrightarrow> dq_read t = Some (w', r') \<Longrightarrow> length r' < length t"
    using "1.IH" by blast
  show ?case
  proof (cases s)
    case Nil
    with "1.prems" show ?thesis by simp
  next
    case (Cons c cs)
    note s = Cons
    consider (quote) "c = dquote" | (expand) "c = dollar \<or> c = backtick"
      | (bs) "c = backslash"
      | (plain) "c \<noteq> dquote" "c \<noteq> dollar" "c \<noteq> backtick" "c \<noteq> backslash"
      by blast
    then show ?thesis
    proof cases
      case quote
      with "1.prems" s show ?thesis by simp
    next
      case expand
      with "1.prems" s show ?thesis by (auto simp: special_chars)
    next
      case bs
      show ?thesis
      proof (cases cs)
        case Nil
        with "1.prems" s bs show ?thesis by (simp add: special_chars)
      next
        case (Cons d ds)
        from "1.prems" s bs Cons obtain w' r' where "dq_read ds = Some (w', r')" "r = r'"
          by (auto simp: special_chars split: if_splits)
        with IH [of ds w' r'] s Cons show ?thesis by simp
      qed
    next
      case plain
      with "1.prems" s obtain w' where "dq_read cs = Some (w', r)"
        by auto
      with IH [of cs w' r] s show ?thesis by simp
    qed
  qed
qed

section \<open>The words of a shell command\<close>

text \<open>
  How a POSIX shell splits a simple command into words (its arguments), for the commands
  that are made of blanks, unquoted runs of letters, digits and a few harmless punctuation
  characters, and double-quoted strings. Quoted and unquoted parts that touch form one
  word. Anything else outside quotes (an operator, an expansion, a single quote, a
  newline) is beyond this fragment and gives \<open>None\<close>.
\<close>

definition tab :: char where
  "tab = CHR 0x09"

definition plain_char :: "char \<Rightarrow> bool" where
  "plain_char c =
     (c \<in> set ''abcdefghijklmnopqrstuvwxyzABCDEFGHIJKLMNOPQRSTUVWXYZ0123456789-_./:,+@%'')"

definition plain_word :: "string \<Rightarrow> bool" where
  "plain_word w = (w \<noteq> [] \<and> list_all plain_char w)"

definition word_so_far :: "string option \<Rightarrow> string" where
  "word_so_far cur = (case cur of None \<Rightarrow> [] | Some w \<Rightarrow> w)"

text \<open>\<open>cur\<close> is the word being read, \<open>None\<close> between two words.\<close>

function sh_words_from :: "string option \<Rightarrow> string \<Rightarrow> string list option" where
  "sh_words_from cur [] = Some (case cur of None \<Rightarrow> [] | Some w \<Rightarrow> [w])"
| "sh_words_from cur (c # cs) =
     (if c = CHR '' '' \<or> c = tab then
        (case cur of
           None \<Rightarrow> sh_words_from None cs
         | Some w \<Rightarrow> map_option (Cons w) (sh_words_from None cs))
      else if c = dquote then
        (case dq_read cs of
           None \<Rightarrow> None
         | Some (t, r) \<Rightarrow> sh_words_from (Some (word_so_far cur @ t)) r)
      else if plain_char c then sh_words_from (Some (word_so_far cur @ [c])) cs
      else None)"
  by pat_completeness auto
termination
  by (relation "measure (\<lambda>(cur, s). length s)") (auto dest: dq_read_shorter)

definition sh_words :: "string \<Rightarrow> string list option" where
  "sh_words s = sh_words_from None s"

section \<open>The single-quoted string of a shell script\<close>

text \<open>
  Between single quotes every character stands for itself and the next single quote ends
  the string. \<open>sq_read\<close> reads the input after an opening single quote;
  \<open>split_single_quoted\<close> cuts a script at its first single-quoted string into the text
  before it, the quoted text, and the text after it.
\<close>

fun sq_read :: "string \<Rightarrow> (string \<times> string) option" where
  "sq_read [] = None"
| "sq_read (c # cs) =
     (if c = squote then Some ([], cs)
      else map_option (\<lambda>(w, r). (c # w, r)) (sq_read cs))"

fun split_single_quoted :: "string \<Rightarrow> (string \<times> string \<times> string) option" where
  "split_single_quoted [] = None"
| "split_single_quoted (c # cs) =
     (if c = squote then map_option (\<lambda>(w, r). ([], w, r)) (sq_read cs)
      else map_option (\<lambda>(b, w, r). (c # b, w, r)) (split_single_quoted cs))"

section \<open>The reading of a JSON text\<close>

text \<open>
  How the tool that reads the settings file decodes it: a reader for the JSON texts
  (RFC 8259) made of objects, arrays and strings, which are the values the scaffold
  writes. It is split into a lexer and a parser. Numbers and the literals \<open>true\<close>,
  \<open>false\<close> and \<open>null\<close> are beyond this fragment and give \<open>None\<close>.
\<close>

definition hexval :: "char \<Rightarrow> nat option" where
  "hexval c =
     (let n = (of_char c :: nat) in
      if 0x30 \<le> n \<and> n \<le> 0x39 then Some (n - 0x30)
      else if 0x61 \<le> n \<and> n \<le> 0x66 then Some (n - 0x61 + 10)
      else if 0x41 \<le> n \<and> n \<le> 0x46 then Some (n - 0x41 + 10)
      else None)"

definition hex4 :: "char \<Rightarrow> char \<Rightarrow> char \<Rightarrow> char \<Rightarrow> nat option" where
  "hex4 a b c d =
     (case (hexval a, hexval b, hexval c, hexval d) of
        (Some x, Some y, Some z, Some w) \<Rightarrow> Some (((x * 16 + y) * 16 + z) * 16 + w)
      | _ \<Rightarrow> None)"

text \<open>
  The UTF-8 bytes of the code point that a \<open>\uXXXX\<close> escape names. A surrogate (the half
  of a pair for a code point beyond U+FFFF) is not decoded here.
\<close>

definition utf8_encode :: "nat \<Rightarrow> string option" where
  "utf8_encode n =
     (if n < 0x80 then Some [char_of n]
      else if n < 0x800 then Some [char_of (0xC0 + n div 64), char_of (0x80 + n mod 64)]
      else if 0xD800 \<le> n \<and> n < 0xE000 then None
      else if n < 0x10000 then
        Some [char_of (0xE0 + n div 4096), char_of (0x80 + n div 64 mod 64),
              char_of (0x80 + n mod 64)]
      else None)"

definition json_unescape :: "char \<Rightarrow> char option" where
  "json_unescape e =
     (if e = dquote \<or> e = backslash \<or> e = CHR ''/'' then Some e
      else if e = CHR ''b'' then Some (CHR 0x08)
      else if e = CHR ''f'' then Some (CHR 0x0C)
      else if e = CHR ''n'' then Some (CHR 0x0A)
      else if e = CHR ''r'' then Some (CHR 0x0D)
      else if e = CHR ''t'' then Some (CHR 0x09)
      else None)"

text \<open>
  \<open>lex_string\<close> reads the input after the opening double quote of a string: the decoded
  string and the input after the closing quote. A control character must be escaped.
\<close>

fun lex_string :: "string \<Rightarrow> (string \<times> string) option" where
  "lex_string [] = None"
| "lex_string (c # cs) =
     (if c = dquote then Some ([], cs)
      else if c = backslash then
        (case cs of
           [] \<Rightarrow> None
         | e # es \<Rightarrow>
             if e = CHR ''u'' then
               (case es of
                  h1 # h2 # h3 # h4 # rest \<Rightarrow>
                    (case hex4 h1 h2 h3 h4 of
                       None \<Rightarrow> None
                     | Some n \<Rightarrow>
                         (case utf8_encode n of
                            None \<Rightarrow> None
                          | Some bs \<Rightarrow> map_option (\<lambda>(w, r). (bs @ w, r)) (lex_string rest)))
                | _ \<Rightarrow> None)
             else
               (case json_unescape e of
                  None \<Rightarrow> None
                | Some ch \<Rightarrow> map_option (\<lambda>(w, r). (ch # w, r)) (lex_string es)))
      else if (of_char c :: nat) < 0x20 then None
      else map_option (\<lambda>(w, r). (c # w, r)) (lex_string cs))"

lemma lex_string_shorter: "lex_string s = Some (w, r) \<Longrightarrow> length r < length s"
proof (induction s arbitrary: w r rule: length_induct)
  case (1 s)
  have IH: "\<And>t w' r'. length t < length s \<Longrightarrow> lex_string t = Some (w', r') \<Longrightarrow> length r' < length t"
    using "1.IH" by blast
  show ?case
  proof (cases s)
    case Nil
    with "1.prems" show ?thesis by simp
  next
    case (Cons c cs)
    note s = Cons
    consider (quote) "c = dquote" | (bs) "c = backslash" "c \<noteq> dquote"
      | (plain) "c \<noteq> dquote" "c \<noteq> backslash"
      by blast
    then show ?thesis
    proof cases
      case quote
      with "1.prems" s show ?thesis by simp
    next
      case plain
      with "1.prems" s obtain w' where "lex_string cs = Some (w', r)"
        by (auto split: if_splits)
      with IH [of cs w' r] s show ?thesis by simp
    next
      case bs
      show ?thesis
      proof (cases cs)
        case Nil
        with "1.prems" s bs show ?thesis by simp
      next
        case (Cons e es)
        note cs = Cons
        show ?thesis
        proof (cases "e = CHR ''u''")
          case False
          with "1.prems" s bs cs obtain w' where "lex_string es = Some (w', r)"
            by (auto split: option.splits)
          with IH [of es w' r] s cs show ?thesis by simp
        next
          case True
          with "1.prems" s bs cs obtain h1 h2 h3 h4 rest w'
            where "es = h1 # h2 # h3 # h4 # rest" "lex_string rest = Some (w', r)"
            by (auto split: option.splits list.splits)
          with IH [of rest w' r] s cs show ?thesis by simp
        qed
      qed
    qed
  qed
qed

datatype token = TLBrace | TRBrace | TLBracket | TRBracket | TColon | TComma | TStr string

definition json_space :: "char \<Rightarrow> bool" where
  "json_space c = (c = CHR '' '' \<or> c = CHR 0x09 \<or> c = CHR 0x0A \<or> c = CHR 0x0D)"

function tokenise :: "string \<Rightarrow> token list option" where
  "tokenise [] = Some []"
| "tokenise (c # cs) =
     (if json_space c then tokenise cs
      else if c = CHR ''{'' then map_option (Cons TLBrace) (tokenise cs)
      else if c = CHR ''}'' then map_option (Cons TRBrace) (tokenise cs)
      else if c = CHR ''['' then map_option (Cons TLBracket) (tokenise cs)
      else if c = CHR '']'' then map_option (Cons TRBracket) (tokenise cs)
      else if c = CHR '':'' then map_option (Cons TColon) (tokenise cs)
      else if c = CHR '','' then map_option (Cons TComma) (tokenise cs)
      else if c = dquote then
        (case lex_string cs of
           None \<Rightarrow> None
         | Some (s, r) \<Rightarrow> map_option (Cons (TStr s)) (tokenise r))
      else None)"
  by pat_completeness auto
termination
  by (relation "measure length") (auto dest: lex_string_shorter)

text \<open>
  The parser, by recursive descent. Its first argument bounds the depth of the nested
  calls; \<open>json_loads\<close> starts it with more than twice the number of tokens.
  \<open>parse_elements\<close> reads the elements of an array that is not empty, up to its closing
  bracket; \<open>parse_members\<close> does so for an object.
\<close>

fun parse_value :: "nat \<Rightarrow> token list \<Rightarrow> (json \<times> token list) option"
  and parse_elements :: "nat \<Rightarrow> token list \<Rightarrow> (json list \<times> token list) option"
  and parse_members :: "nat \<Rightarrow> token list \<Rightarrow> ((string \<times> json) list \<times> token list) option"
where
  "parse_value 0 ts = None"
| "parse_value (Suc n) ts =
     (case ts of
        TStr s # r \<Rightarrow> Some (JStr s, r)
      | TLBracket # TRBracket # r \<Rightarrow> Some (JList [], r)
      | TLBracket # r \<Rightarrow> map_option (\<lambda>(xs, r2). (JList xs, r2)) (parse_elements n r)
      | TLBrace # TRBrace # r \<Rightarrow> Some (JDict [], r)
      | TLBrace # r \<Rightarrow> map_option (\<lambda>(kvs, r2). (JDict kvs, r2)) (parse_members n r)
      | _ \<Rightarrow> None)"
| "parse_elements 0 ts = None"
| "parse_elements (Suc n) ts =
     (case parse_value n ts of
        None \<Rightarrow> None
      | Some (x, r) \<Rightarrow>
          (case r of
             TComma # r2 \<Rightarrow> map_option (\<lambda>(xs, r3). (x # xs, r3)) (parse_elements n r2)
           | TRBracket # r2 \<Rightarrow> Some ([x], r2)
           | _ \<Rightarrow> None))"
| "parse_members 0 ts = None"
| "parse_members (Suc n) ts =
     (case ts of
        TStr k # TColon # r \<Rightarrow>
          (case parse_value n r of
             None \<Rightarrow> None
           | Some (v, r2) \<Rightarrow>
               (case r2 of
                  TComma # r3 \<Rightarrow>
                    map_option (\<lambda>(kvs, r4). ((k, v) # kvs, r4)) (parse_members n r3)
                | TRBrace # r3 \<Rightarrow> Some ([(k, v)], r3)
                | _ \<Rightarrow> None))
      | _ \<Rightarrow> None)"

definition json_loads :: "string \<Rightarrow> json option" where
  "json_loads s =
     (case tokenise s of
        None \<Rightarrow> None
      | Some ts \<Rightarrow>
          (case parse_value (Suc (2 * length ts)) ts of
             Some (v, []) \<Rightarrow> Some v
           | _ \<Rightarrow> None))"

section \<open>Properties of \<open>_escape_for_shell\<close>\<close>

lemma str_replace_append:
  "str_replace (xs @ ys) old new = str_replace xs old new @ str_replace ys old new"
  by (induction xs) simp_all

lemma str_replace_concat_map:
  "str_replace (concat (map f xs)) old new = concat (map (\<lambda>c. str_replace (f c) old new) xs)"
  by (induction xs) (simp_all add: str_replace_append)

lemma str_replace_as_map:
  "str_replace xs old new = concat (map (\<lambda>c. if c = old then new else [c]) xs)"
  by (induction xs) simp_all

lemma escape_for_shell_concat_map:
  "escape_for_shell s = concat (map escape_char s)"
proof -
  have step: "\<And>c. str_replace (str_replace (str_replace
                 (if c = backslash then [backslash, backslash] else [c])
                 dquote [backslash, dquote]) dollar [backslash, dollar])
                 backtick [backslash, backtick] = escape_char c"
    by (simp add: escape_char_def is_special_def special_chars)
  have "escape_for_shell s =
        concat (map (\<lambda>c. str_replace (str_replace (str_replace
                 (if c = backslash then [backslash, backslash] else [c])
                 dquote [backslash, dquote]) dollar [backslash, dollar])
                 backtick [backslash, backtick]) s)"
    unfolding escape_for_shell_def Let_def
    by (subst str_replace_as_map [of s]) (simp only: str_replace_concat_map)
  then show ?thesis
    by (simp only: step)
qed

lemma escape_for_shell_Nil [simp]: "escape_for_shell [] = []"
  by (simp add: escape_for_shell_concat_map)

lemma escape_for_shell_Cons:
  "escape_for_shell (c # cs) = escape_char c @ escape_for_shell cs"
  by (simp add: escape_for_shell_concat_map)

lemma dq_read_escape_for_shell:
  "dq_read (escape_for_shell s @ dquote # rest) = Some (s, rest)"
proof (induction s)
  case Nil
  show ?case by simp
next
  case (Cons c cs)
  show ?case
  proof (cases "is_special c")
    case True
    then show ?thesis
      using Cons.IH
      by (simp add: escape_for_shell_Cons escape_char_def special_chars)
  next
    case False
    then show ?thesis
      using Cons.IH
      by (simp add: escape_for_shell_Cons escape_char_def is_special_def)
  qed
qed

section \<open>Properties of \<open>build_commands\<close>\<close>

lemma build_commands_loop_later:
  "0 < i \<Longrightarrow>
   build_commands_loop model_name system_prompt i queries commands =
   commands @ map continuation_command queries"
  by (induction queries arbitrary: i commands) (simp_all add: continuation_command_def)

lemma build_commands_loop_first:
  "build_commands_loop model_name system_prompt 0 (query # queries) commands =
   commands @ first_command model_name system_prompt query # map continuation_command queries"
  by (simp add: build_commands_loop_later first_command_def system_prompt_option_def
      split: option.split)

lemma build_commands_Nil: "build_commands [] system_prompt model = []"
  by (simp add: build_commands_def)

lemma build_commands_Cons:
  "build_commands (query # queries) system_prompt model =
   first_command (or_default model DEFAULT_MODEL) system_prompt query
     # map continuation_command queries"
  by (simp only: build_commands_def Let_def build_commands_loop_first append_Nil)

lemma length_build_commands:
  "length (build_commands queries system_prompt model) = length queries"
  by (cases queries) (simp_all add: build_commands_Nil build_commands_Cons)

lemma build_commands_nth_0:
  "queries \<noteq> [] \<Longrightarrow>
   build_commands queries system_prompt model ! 0 =
   first_command (or_default model DEFAULT_MODEL) system_prompt (queries ! 0)"
  by (cases queries) (simp_all add: build_commands_Cons)

lemma build_commands_nth_later:
  "0 < i \<Longrightarrow> i < length queries \<Longrightarrow>
   build_commands queries system_prompt model ! i = continuation_command (queries ! i)"
  by (cases queries) (simp_all add: build_commands_Cons nth_Cons')

lemma sh_words_from_plain:
  "list_all plain_char w \<Longrightarrow> w \<noteq> [] \<Longrightarrow>
   sh_words_from cur (w @ rest) = sh_words_from (Some (word_so_far cur @ w)) rest"
proof (induction w arbitrary: cur)
  case Nil
  then show ?case by simp
next
  case (Cons c w)
  have c: "plain_char c" "c \<noteq> CHR '' ''" "c \<noteq> tab" "c \<noteq> dquote"
    using Cons.prems(1) by (auto simp: plain_char_def tab_def dquote_def)
  show ?case
  proof (cases "w = []")
    case True
    with c show ?thesis by simp
  next
    case False
    with Cons c show ?thesis by (simp add: word_so_far_def)
  qed
qed

lemma sh_words_continuation_command:
  "sh_words (continuation_command q) =
   Some [''claude'', ''--dangerously-skip-permissions'', ''-c'', ''-p'', q]"
  by (simp add: continuation_command_def sh_words_def dq_read_escape_for_shell [unfolded dquote_def]
      plain_char_def tab_def dquote_def word_so_far_def)

lemma sh_words_first_command:
  assumes "plain_word model_name"
  shows "sh_words (first_command model_name system_prompt q) =
   Some ([''claude'', ''--model'', model_name, ''--dangerously-skip-permissions'', ''-p'', q]
         @ (case system_prompt of
              None \<Rightarrow> []
            | Some sp \<Rightarrow> if sp = [] then [] else [''--system-prompt'', sp]))"
proof -
  from assms have "list_all plain_char model_name" "model_name \<noteq> []"
    by (simp_all add: plain_word_def)
  note model = sh_words_from_plain [OF this]
  show ?thesis
    by (simp add: first_command_def system_prompt_option_def sh_words_def
        dq_read_escape_for_shell [unfolded dquote_def] model
        plain_char_def tab_def dquote_def word_so_far_def split: option.split)
qed

lemma dq_read_first_command:
  \<open>dq_read (drop (length (''claude --model '' @ model_name @ '' --dangerously-skip-permissions -p "''))
             (first_command model_name system_prompt query)) =
   Some (query, system_prompt_option system_prompt)\<close>
proof -
  have \<open>first_command model_name system_prompt query =
        (''claude --model '' @ model_name @ '' --dangerously-skip-permissions -p "'')
          @ (escape_for_shell query @ dquote # system_prompt_option system_prompt)\<close>
    by (simp add: first_command_def dquote_def)
  moreover have "drop (length xs) (xs @ ys) = ys" for xs ys :: string
    by simp
  ultimately have \<open>drop (length (''claude --model '' @ model_name @ '' --dangerously-skip-permissions -p "''))
              (first_command model_name system_prompt query) =
            escape_for_shell query @ dquote # system_prompt_option system_prompt\<close>
    by (simp only:)
  then show ?thesis
    by (simp only: dq_read_escape_for_shell)
qed

text \<open>
  A text that holds none of the escaped characters occurs in an escaped query, or in the
  continuation command around it, only where it occurs in the query itself.
\<close>

lemma sublist_across_char:
  assumes "d \<notin> set p"
  shows "sublist p (xs @ d # ys) \<longleftrightarrow> sublist p xs \<or> sublist p ys"
proof
  assume "sublist p xs \<or> sublist p ys"
  then show "sublist p (xs @ d # ys)"
  proof
    assume "sublist p xs"
    then obtain a b where "xs = a @ p @ b"
      by (auto simp: sublist_def)
    then have "xs @ d # ys = a @ p @ (b @ d # ys)"
      by simp
    then show ?thesis
      unfolding sublist_def by blast
  next
    assume "sublist p ys"
    then obtain a b where "ys = a @ p @ b"
      by (auto simp: sublist_def)
    then have "xs @ d # ys = (xs @ d # a) @ p @ b"
      by simp
    then show ?thesis
      unfolding sublist_def by blast
  qed
next
  assume "sublist p (xs @ d # ys)"
  then consider "sublist p xs" | "sublist p (d # ys)"
    | p1 p2 where "p = p1 @ p2" "suffix p1 xs" "prefix p2 (d # ys)"
    unfolding sublist_append by blast
  then show "sublist p xs \<or> sublist p ys"
  proof cases
    case 1
    then show ?thesis by simp
  next
    case 2
    then have "prefix p (d # ys) \<or> sublist p ys"
      by (simp add: sublist_Cons_right)
    moreover have "p = []" if "prefix p (d # ys)"
      using that assms by (cases p) auto
    ultimately show ?thesis
      by auto
  next
    case 3
    have "p2 = []"
      using 3(1,3) assms by (cases p2) auto
    with 3 show ?thesis
      by auto
  qed
qed

text \<open>A text without any of the four characters that \<open>_escape_for_shell\<close> escapes.\<close>

definition unescaped :: "string \<Rightarrow> bool" where
  "unescaped p = list_all (\<lambda>c. \<not> is_special c) p"

lemma prefix_escape_for_shell:
  "unescaped p \<Longrightarrow> prefix p (escape_for_shell q) \<Longrightarrow> prefix p q"
proof (induction q arbitrary: p)
  case Nil
  then show ?case by simp
next
  case (Cons c cs)
  show ?case
  proof (cases p)
    case Nil
    then show ?thesis by simp
  next
    case p: (Cons x p')
    with Cons.prems have x: "\<not> is_special x" "unescaped p'"
      by (simp_all add: unescaped_def)
    show ?thesis
    proof (cases "is_special c")
      case True
      with Cons.prems(2) p have "x = backslash"
        by (simp add: escape_for_shell_Cons escape_char_def)
      with x show ?thesis
        by (simp add: is_special_def)
    next
      case False
      with Cons.prems(2) p have "x = c" "prefix p' (escape_for_shell cs)"
        by (simp_all add: escape_for_shell_Cons escape_char_def)
      with Cons.IH [OF x(2)] p show ?thesis
        by simp
    qed
  qed
qed

lemma sublist_escape_for_shell:
  "unescaped p \<Longrightarrow> sublist p (escape_for_shell q) \<Longrightarrow> sublist p q"
proof (induction q)
  case Nil
  then show ?case by simp
next
  case (Cons c cs)
  have nb: "backslash \<notin> set p" and np: "is_special d \<Longrightarrow> d \<notin> set p" for d
    using Cons.prems(1) by (auto simp: unescaped_def list_all_iff is_special_def)
  show ?case
  proof (cases "is_special c")
    case True
    then have "escape_for_shell (c # cs) = [] @ backslash # ([] @ c # escape_for_shell cs)"
      by (simp add: escape_for_shell_Cons escape_char_def)
    with Cons.prems(2) have "sublist p [] \<or> sublist p [] \<or> sublist p (escape_for_shell cs)"
      by (simp only: sublist_across_char [OF nb] sublist_across_char [OF np [OF True]])
    with Cons.IH [OF Cons.prems(1)] show ?thesis
      by (auto simp: sublist_Cons_right)
  next
    case False
    then have "escape_for_shell (c # cs) = c # escape_for_shell cs"
      by (simp add: escape_for_shell_Cons escape_char_def)
    with Cons.prems(2) have "prefix p (escape_for_shell (c # cs)) \<or> sublist p (escape_for_shell cs)"
      by (simp add: sublist_Cons_right)
    then show ?thesis
    proof
      assume "prefix p (escape_for_shell (c # cs))"
      then show ?thesis
        using prefix_escape_for_shell [OF Cons.prems(1)] by blast
    next
      assume "sublist p (escape_for_shell cs)"
      with Cons.IH [OF Cons.prems(1)] show ?thesis
        by (simp add: sublist_Cons_right)
    qed
  qed
qed

lemma sublist_continuation_command:
  assumes "unescaped p" "p \<noteq> []"
    and "\<not> sublist p ''claude --dangerously-skip-permissions -c -p ''"
    and "\<not> sublist p q"
  shows "\<not> sublist p (continuation_command q)"
proof -
  have d: "dquote \<notin> set p"
    using assms(1) by (auto simp: unescaped_def list_all_iff is_special_def)
  have "continuation_command q =
        ''claude --dangerously-skip-permissions -c -p '' @ dquote # (escape_for_shell q @ dquote # [])"
    by (simp add: continuation_command_def dquote_def)
  then have "sublist p (continuation_command q) \<longleftrightarrow>
        sublist p ''claude --dangerously-skip-permissions -c -p '' \<or>
        sublist p (escape_for_shell q) \<or> sublist p []"
    by (simp only: sublist_across_char [OF d])
  with assms sublist_escape_for_shell [of p q] show ?thesis
    by auto
qed

lemma no_model_flag:
  "\<not> sublist ''--model'' q \<Longrightarrow> \<not> sublist ''--model'' (continuation_command q)"
proof (rule sublist_continuation_command)
  show "unescaped ''--model''"
    by (simp add: unescaped_def is_special_def special_chars)
  show "\<not> sublist ''--model'' ''claude --dangerously-skip-permissions -c -p ''"
    by code_simp
qed simp_all

lemma no_system_prompt_flag:
  "\<not> sublist ''--system-prompt'' q \<Longrightarrow> \<not> sublist ''--system-prompt'' (continuation_command q)"
proof (rule sublist_continuation_command)
  show "unescaped ''--system-prompt''"
    by (simp add: unescaped_def is_special_def special_chars)
  show "\<not> sublist ''--system-prompt'' ''claude --dangerously-skip-permissions -c -p ''"
    by code_simp
qed simp_all

section \<open>Properties of \<open>get_setup_script\<close>\<close>

text \<open>The dictionary that \<open>get_setup_script\<close> serialises.\<close>

definition settings_of :: "string \<Rightarrow> json" where
  "settings_of proxy_url =
     JDict [(''env'', JDict [(''ANTHROPIC_BASE_URL'', JStr proxy_url)]),
            (''permissions'', JDict [(''allow'', JList (map JStr ALLOWED_PERMISSIONS))])]"

lemma hexval_hexdigit: "n < 16 \<Longrightarrow> hexval (hexdigit n) = Some n"
proof -
  assume "n < 16"
  then have "n = 0 \<or> n = 1 \<or> n = 2 \<or> n = 3 \<or> n = 4 \<or> n = 5 \<or> n = 6 \<or> n = 7 \<or>
             n = 8 \<or> n = 9 \<or> n = 10 \<or> n = 11 \<or> n = 12 \<or> n = 13 \<or> n = 14 \<or> n = 15"
    by arith
  then show ?thesis
    by (auto simp: hexval_def hexdigit_def)
qed

lemma lex_string_escape_char:
  "lex_string (json_escape_char c @ cs) = map_option (\<lambda>(w, r). (c # w, r)) (lex_string cs)"
proof (cases "(of_char c :: nat) < 0x20")
  case True
  have "(of_char c :: nat) div 16 < 16" "(of_char c :: nat) mod 16 < 16"
    using True by simp_all
  then have hx: "hex4 (CHR ''0'') (CHR ''0'') (hexdigit ((of_char c :: nat) div 16))
                   (hexdigit ((of_char c :: nat) mod 16)) = Some (of_char c)"
    by (simp add: hex4_def hexval_hexdigit) (simp add: hexval_def)
  have u: "utf8_encode (of_char c) = Some [c]"
    using True by (simp add: utf8_encode_def)
  have ne: "c \<noteq> dquote" "c \<noteq> backslash"
    using True by (auto simp: special_chars)
  show ?thesis
    using ne hx u
    by (simp add: json_escape_char_def json_unescape_def special_chars)
next
  case False
  then show ?thesis
    by (auto simp: json_escape_char_def json_unescape_def special_chars)
qed

lemma lex_string_encoded:
  "lex_string (concat (map json_escape_char s) @ dquote # rest) = Some (s, rest)"
  by (induction s) (simp_all add: lex_string_escape_char)

lemma tokenise_encode_basestring:
  "tokenise (encode_basestring s @ rest) = map_option (Cons (TStr s)) (tokenise rest)"
proof -
  have "\<not> json_space dquote" "dquote \<noteq> CHR ''{''" "dquote \<noteq> CHR ''}''" "dquote \<noteq> CHR ''[''"
    "dquote \<noteq> CHR '']''" "dquote \<noteq> CHR '':''" "dquote \<noteq> CHR '',''"
    by (simp_all add: json_space_def dquote_def)
  then show ?thesis
    by (simp add: encode_basestring_def lex_string_encoded)
qed

lemma parse_value_numeral:
  "parse_value (numeral k) ts =
     (case ts of
        TStr s # r \<Rightarrow> Some (JStr s, r)
      | TLBracket # TRBracket # r \<Rightarrow> Some (JList [], r)
      | TLBracket # r \<Rightarrow> map_option (\<lambda>(xs, r2). (JList xs, r2)) (parse_elements (pred_numeral k) r)
      | TLBrace # TRBrace # r \<Rightarrow> Some (JDict [], r)
      | TLBrace # r \<Rightarrow> map_option (\<lambda>(kvs, r2). (JDict kvs, r2)) (parse_members (pred_numeral k) r)
      | _ \<Rightarrow> None)"
  by (simp only: numeral_eq_Suc parse_value.simps)

lemma parse_elements_numeral:
  "parse_elements (numeral k) ts =
     (case parse_value (pred_numeral k) ts of
        None \<Rightarrow> None
      | Some (x, r) \<Rightarrow>
          (case r of
             TComma # r2 \<Rightarrow> map_option (\<lambda>(xs, r3). (x # xs, r3)) (parse_elements (pred_numeral k) r2)
           | TRBracket # r2 \<Rightarrow> Some ([x], r2)
           | _ \<Rightarrow> None))"
  by (simp only: numeral_eq_Suc parse_elements.simps)

lemma parse_members_numeral:
  "parse_members (numeral k) ts =
     (case ts of
        TStr key # TColon # r \<Rightarrow>
          (case parse_value (pred_numeral k) r of
             None \<Rightarrow> None
           | Some (v, r2) \<Rightarrow>
               (case r2 of
                  TComma # r3 \<Rightarrow>
                    map_option (\<lambda>(kvs, r4). ((key, v) # kvs, r4)) (parse_members (pred_numeral k) r3)
                | TRBrace # r3 \<Rightarrow> Some ([(key, v)], r3)
                | _ \<Rightarrow> None))
      | _ \<Rightarrow> None)"
  by (simp only: numeral_eq_Suc parse_members.simps)

lemma tokenise_settings:
  "tokenise (json_dumps (settings_of proxy_url)) =
   Some [TLBrace, TStr ''env'', TColon, TLBrace, TStr ''ANTHROPIC_BASE_URL'', TColon,
         TStr proxy_url, TRBrace, TComma, TStr ''permissions'', TColon, TLBrace,
         TStr ''allow'', TColon, TLBracket,
         TStr ''Bash(*)'', TComma, TStr ''Write(*)'', TComma, TStr ''Edit(*)'', TComma,
         TStr ''Read(*)'', TComma, TStr ''WebFetch(*)'', TComma, TStr ''TodoRead(*)'', TComma,
         TStr ''TodoWrite(*)'', TComma, TStr ''Task(*)'', TComma, TStr ''Glob(*)'', TComma,
         TStr ''Grep(*)'', TComma, TStr ''LS(*)'',
         TRBracket, TRBrace, TRBrace]"
  by (simp add: settings_of_def ALLOWED_PERMISSIONS_def tokenise_encode_basestring json_space_def)

lemma json_loads_settings:
  "json_loads (json_dumps (settings_of proxy_url)) = Some (settings_of proxy_url)"
  unfolding json_loads_def tokenise_settings
  by (simp add: parse_value_numeral parse_elements_numeral parse_members_numeral settings_of_def
      ALLOWED_PERMISSIONS_def)

lemma hexdigit_not_squote: "hexdigit n \<noteq> squote"
proof -
  have "hexdigit n \<in> set ''0123456789abcdef''"
    unfolding hexdigit_def by (rule nth_mem) simp
  then show ?thesis
    by (auto simp: squote_def)
qed

lemma squote_notin_json_escape_char:
  "c \<noteq> squote \<Longrightarrow> squote \<notin> set (json_escape_char c)"
  using hexdigit_not_squote [of "(of_char c :: nat) div 16"]
    hexdigit_not_squote [of "(of_char c :: nat) mod 16"]
  by (auto simp: json_escape_char_def special_chars)

lemma squote_notin_encode_basestring:
  "squote \<notin> set s \<Longrightarrow> squote \<notin> set (encode_basestring s)"
proof -
  assume s: "squote \<notin> set s"
  have "\<forall>c \<in> set s. squote \<notin> set (json_escape_char c)"
  proof
    fix c
    assume "c \<in> set s"
    with s have "c \<noteq> squote"
      by auto
    then show "squote \<notin> set (json_escape_char c)"
      by (rule squote_notin_json_escape_char)
  qed
  moreover have "squote \<noteq> dquote"
    by (simp add: special_chars)
  ultimately show ?thesis
    by (simp add: encode_basestring_def)
qed

lemma squote_notin_settings:
  "squote \<notin> set proxy_url \<Longrightarrow> squote \<notin> set (json_dumps (settings_of proxy_url))"
proof -
  assume "squote \<notin> set proxy_url"
  then have "squote \<notin> set (encode_basestring proxy_url)"
    by (rule squote_notin_encode_basestring)
  moreover have "squote \<notin> set (encode_basestring s)"
    if "s \<in> set (''env'' # ''ANTHROPIC_BASE_URL'' # ''permissions'' # ''allow'' # ALLOWED_PERMISSIONS)"
    for s
    using that
    by (intro squote_notin_encode_basestring) (auto simp: ALLOWED_PERMISSIONS_def squote_def)
  ultimately show ?thesis
    by (simp add: settings_of_def ALLOWED_PERMISSIONS_def squote_def)
qed

lemma sq_read_unquoted:
  "squote \<notin> set s \<Longrightarrow> sq_read (s @ squote # rest) = Some (s, rest)"
  by (induction s) auto

lemma get_setup_script_settings:
  "get_setup_script proxy_url model =
   ''mkdir -p ~/.claude && echo '' @ [squote] @ json_dumps (settings_of proxy_url) @ [squote]
     @ '' > ~/.claude/settings.json''"
  by (simp add: get_setup_script_def settings_of_def)

lemma split_single_quoted_setup_script:
  assumes "squote \<notin> set proxy_url"
  shows "split_single_quoted (get_setup_script proxy_url model) =
         Some (''mkdir -p ~/.claude && echo '', json_dumps (settings_of proxy_url),
               '' > ~/.claude/settings.json'')"
proof -
  have "sq_read (json_dumps (settings_of proxy_url) @ squote # '' > ~/.claude/settings.json'') =
        Some (json_dumps (settings_of proxy_url), '' > ~/.claude/settings.json'')"
    using assms by (intro sq_read_unquoted squote_notin_settings)
  then show ?thesis
    unfolding get_setup_script_settings
    by (simp add: squote_def)
qed

section \<open>The claims of the specification\<close>

text \<open>
  C1. For every input string, \<open>_escape_for_shell\<close> puts exactly one backslash in front of
  each backslash, double quote, dollar sign and backtick of the input and leaves every
  other character alone: its result is the character-by-character escaping of the
  original text, so no backslash that an earlier replacement inserted is escaped again.
  Put between double quotes and followed by any further input, the result is read by a
  POSIX shell as exactly the original text, the string ending at the closing quote that
  was put there (no early end, no expansion).
\<close>

theorem escape_for_shell_roundtrip:
  "escape_for_shell s = concat (map escape_char s) \<and>
   dq_read (escape_for_shell s @ dquote # rest) = Some (s, rest)"
  by (simp only: dq_read_escape_for_shell escape_for_shell_concat_map [symmetric])

text \<open>
  A system prompt that is supplied but empty is treated as no system prompt
  (\<open>if system_prompt:\<close> is false for the empty string): the first command is the one
  built without a system prompt and has no \<open>--system-prompt\<close> in it.
\<close>

theorem empty_system_prompt_counterexample:
  \<open>build_commands [''list files''] (Some []) None =
     [''claude --model claude-sonnet-4-5-20250929 --dangerously-skip-permissions -p "list files"''] \<and>
   build_commands [''list files''] (Some []) None = build_commands [''list files''] None None \<and>
   \<not> sublist ''--system-prompt'' (build_commands [''list files''] (Some []) None ! 0)\<close>
proof -
  have a: \<open>build_commands [''list files''] (Some []) None =
     [''claude --model claude-sonnet-4-5-20250929 --dangerously-skip-permissions -p "list files"'']\<close>
    by (simp add: build_commands_def or_default_def DEFAULT_MODEL_def escape_for_shell_def
        special_chars)
  have b: "build_commands [''list files''] (Some []) None = build_commands [''list files''] None None"
    by (simp add: build_commands_def)
  have c: \<open>\<not> sublist ''--system-prompt''
     ''claude --model claude-sonnet-4-5-20250929 --dangerously-skip-permissions -p "list files"''\<close>
    by code_simp
  from a b c show ?thesis by simp
qed

text \<open>
  C2, as the code has it. For every non-empty query list, the first command is the command
  built without a system prompt, followed by \<open>--system-prompt "<escaped prompt>"\<close> when a
  non-empty system prompt was supplied and by nothing otherwise; where the model name is a
  plain word, the shell reads the words \<open>--system-prompt\<close> and the original prompt after
  the query in the first case and no such words in the second. Every command at an index
  \<open>i > 0\<close> is the continuation command around the escaped query \<open>i\<close>, the same whatever
  the system prompt, and the shell reads it as the five words \<open>claude\<close>,
  \<open>--dangerously-skip-permissions\<close>, \<open>-c\<close>, \<open>-p\<close> and the query; the text
  \<open>--system-prompt\<close> occurs in it only if it occurs in the query itself.
\<close>

theorem system_prompt_first_command_only:
  assumes "queries \<noteq> []"
  shows
  \<open>build_commands queries system_prompt model ! 0 =
     build_commands queries None model ! 0 @
     (case system_prompt of
        None \<Rightarrow> []
      | Some sp \<Rightarrow> if sp = [] then [] else '' --system-prompt "'' @ escape_for_shell sp @ ''"'') \<and>
   build_commands queries None model ! 0 =
     ''claude --model '' @ or_default model DEFAULT_MODEL @ '' --dangerously-skip-permissions -p "''
       @ escape_for_shell (queries ! 0) @ ''"'' \<and>
   (plain_word (or_default model DEFAULT_MODEL) \<longrightarrow>
      sh_words (build_commands queries system_prompt model ! 0) =
        Some ([''claude'', ''--model'', or_default model DEFAULT_MODEL,
               ''--dangerously-skip-permissions'', ''-p'', queries ! 0] @
              (case system_prompt of
                 None \<Rightarrow> []
               | Some sp \<Rightarrow> if sp = [] then [] else [''--system-prompt'', sp]))) \<and>
   (\<forall>i. 0 < i \<and> i < length queries \<longrightarrow>
      build_commands queries system_prompt model ! i =
        ''claude --dangerously-skip-permissions -c -p "'' @ escape_for_shell (queries ! i) @ ''"'' \<and>
      build_commands queries system_prompt model ! i = build_commands queries None model ! i \<and>
      sh_words (build_commands queries system_prompt model ! i) =
        Some [''claude'', ''--dangerously-skip-permissions'', ''-c'', ''-p'', queries ! i] \<and>
      (\<not> sublist ''--system-prompt'' (queries ! i) \<longrightarrow>
         \<not> sublist ''--system-prompt'' (build_commands queries system_prompt model ! i)))\<close>
proof -
  have first: \<open>build_commands queries system_prompt model ! 0 =
     build_commands queries None model ! 0 @
     (case system_prompt of
        None \<Rightarrow> []
      | Some sp \<Rightarrow> if sp = [] then [] else '' --system-prompt "'' @ escape_for_shell sp @ ''"'')\<close>
    using assms
    by (simp add: build_commands_nth_0 first_command_def system_prompt_option_def
        split: option.split)
  have none: \<open>build_commands queries None model ! 0 =
     ''claude --model '' @ or_default model DEFAULT_MODEL @ '' --dangerously-skip-permissions -p "''
       @ escape_for_shell (queries ! 0) @ ''"''\<close>
    using assms
    by (simp add: build_commands_nth_0 first_command_def system_prompt_option_def)
  have words: \<open>sh_words (build_commands queries system_prompt model ! 0) =
        Some ([''claude'', ''--model'', or_default model DEFAULT_MODEL,
               ''--dangerously-skip-permissions'', ''-p'', queries ! 0] @
              (case system_prompt of
                 None \<Rightarrow> []
               | Some sp \<Rightarrow> if sp = [] then [] else [''--system-prompt'', sp]))\<close>
    if "plain_word (or_default model DEFAULT_MODEL)"
    using assms that by (simp add: build_commands_nth_0 sh_words_first_command)
  have later: \<open>build_commands queries system_prompt model ! i =
        ''claude --dangerously-skip-permissions -c -p "'' @ escape_for_shell (queries ! i) @ ''"'' \<and>
      build_commands queries system_prompt model ! i = build_commands queries None model ! i \<and>
      sh_words (build_commands queries system_prompt model ! i) =
        Some [''claude'', ''--dangerously-skip-permissions'', ''-c'', ''-p'', queries ! i] \<and>
      (\<not> sublist ''--system-prompt'' (queries ! i) \<longrightarrow>
         \<not> sublist ''--system-prompt'' (build_commands queries system_prompt model ! i))\<close>
    if "0 < i \<and> i < length queries" for i
  proof -
    from that have "build_commands queries sp model ! i = continuation_command (queries ! i)" for sp
      by (simp add: build_commands_nth_later)
    then show ?thesis
      by (simp add: sh_words_continuation_command no_system_prompt_flag)
        (simp add: continuation_command_def)
  qed
  from first none words later show ?thesis
    by blast
qed

theorem system_prompt_first_command_only_witness:
  \<open>[''fix the bug'', ''run the tests''] \<noteq> [] \<and>
   build_commands [''fix the bug'', ''run the tests''] (Some ''be brief'') (Some ''gemini-3-pro'') ! 0 =
     build_commands [''fix the bug'', ''run the tests''] None (Some ''gemini-3-pro'') ! 0
       @ '' --system-prompt "be brief"'' \<and>
   plain_word (or_default (Some ''gemini-3-pro'') DEFAULT_MODEL) \<and>
   sh_words (build_commands [''fix the bug'', ''run the tests''] (Some ''be brief'') (Some ''gemini-3-pro'') ! 0) =
     Some [''claude'', ''--model'', ''gemini-3-pro'', ''--dangerously-skip-permissions'', ''-p'',
           ''fix the bug'', ''--system-prompt'', ''be brief''] \<and>
   sh_words (build_commands [''fix the bug'', ''run the tests''] (Some ''be brief'') (Some ''gemini-3-pro'') ! 1) =
     Some [''claude'', ''--dangerously-skip-permissions'', ''-c'', ''-p'', ''run the tests''] \<and>
   \<not> sublist ''--system-prompt''
     (build_commands [''fix the bug'', ''run the tests''] (Some ''be brief'') (Some ''gemini-3-pro'') ! 1)\<close>
proof -
  have ne: "[''fix the bug'', ''run the tests''] \<noteq> []"
    by simp
  have pw: "plain_word (or_default (Some ''gemini-3-pro'') DEFAULT_MODEL)"
    by (simp add: or_default_def plain_word_def plain_char_def)
  have esc: "escape_for_shell ''be brief'' = ''be brief''"
    by (simp add: escape_for_shell_def special_chars)
  note t = system_prompt_first_command_only [OF ne, of "Some ''be brief''" "Some ''gemini-3-pro''"]
  from t [THEN conjunct1]
  have a: \<open>build_commands [''fix the bug'', ''run the tests''] (Some ''be brief'') (Some ''gemini-3-pro'') ! 0 =
     build_commands [''fix the bug'', ''run the tests''] None (Some ''gemini-3-pro'') ! 0
       @ '' --system-prompt "be brief"''\<close>
    by (simp add: esc)
  from t [THEN conjunct2, THEN conjunct2, THEN conjunct1, THEN mp, OF pw]
  have b: \<open>sh_words (build_commands [''fix the bug'', ''run the tests''] (Some ''be brief'') (Some ''gemini-3-pro'') ! 0) =
     Some [''claude'', ''--model'', ''gemini-3-pro'', ''--dangerously-skip-permissions'', ''-p'',
           ''fix the bug'', ''--system-prompt'', ''be brief'']\<close>
    by (simp add: or_default_def)
  have i: "0 < (1::nat) \<and> 1 < length [''fix the bug'', ''run the tests'']"
    by simp
  note t1 = t [THEN conjunct2, THEN conjunct2, THEN conjunct2, THEN spec, of 1, THEN mp, OF i]
  have nq: "\<not> sublist ''--system-prompt'' ([''fix the bug'', ''run the tests''] ! 1)"
    by code_simp
  note d = t1 [THEN conjunct2, THEN conjunct2, THEN conjunct2, THEN mp, OF nq]
  from t1 [THEN conjunct2, THEN conjunct2, THEN conjunct1]
  have c: "sh_words (build_commands [''fix the bug'', ''run the tests''] (Some ''be brief'') (Some ''gemini-3-pro'') ! 1) =
     Some [''claude'', ''--dangerously-skip-permissions'', ''-c'', ''-p'', ''run the tests'']"
    by simp
  from ne a pw b c d show ?thesis
    by blast
qed

text \<open>
  C3. An explicit model selection is in the first command only: for every non-empty query
  list the command at index 0 starts with \<open>claude --model\<close> and the model name, which is
  \<open>DEFAULT_MODEL\<close> when the model argument is absent (or empty); every command at an
  index \<open>i > 0\<close> is the continuation command (\<open>-c\<close>) around its escaped query, the same
  whatever the model argument, and the shell reads it as the five words \<open>claude\<close>,
  \<open>--dangerously-skip-permissions\<close>, \<open>-c\<close>, \<open>-p\<close> and the query, with no model option;
  the text \<open>--model\<close> occurs in it only if it occurs in the query itself.
\<close>

theorem model_selection_first_command_only:
  assumes "queries \<noteq> []"
  shows
  \<open>build_commands queries system_prompt model ! 0 =
     ''claude --model ''
       @ (case model of None \<Rightarrow> DEFAULT_MODEL | Some m \<Rightarrow> if m = [] then DEFAULT_MODEL else m)
       @ '' --dangerously-skip-permissions -p "'' @ escape_for_shell (queries ! 0) @ ''"''
       @ (case system_prompt of
            None \<Rightarrow> []
          | Some sp \<Rightarrow> if sp = [] then [] else '' --system-prompt "'' @ escape_for_shell sp @ ''"'') \<and>
   (\<forall>i. 0 < i \<and> i < length queries \<longrightarrow>
      build_commands queries system_prompt model ! i =
        ''claude --dangerously-skip-permissions -c -p "'' @ escape_for_shell (queries ! i) @ ''"'' \<and>
      build_commands queries system_prompt model ! i = build_commands queries system_prompt None ! i \<and>
      sh_words (build_commands queries system_prompt model ! i) =
        Some [''claude'', ''--dangerously-skip-permissions'', ''-c'', ''-p'', queries ! i] \<and>
      (\<not> sublist ''--model'' (queries ! i) \<longrightarrow>
         \<not> sublist ''--model'' (build_commands queries system_prompt model ! i)))\<close>
proof -
  have first: \<open>build_commands queries system_prompt model ! 0 =
     ''claude --model ''
       @ (case model of None \<Rightarrow> DEFAULT_MODEL | Some m \<Rightarrow> if m = [] then DEFAULT_MODEL else m)
       @ '' --dangerously-skip-permissions -p "'' @ escape_for_shell (queries ! 0) @ ''"''
       @ (case system_prompt of
            None \<Rightarrow> []
          | Some sp \<Rightarrow> if sp = [] then [] else '' --system-prompt "'' @ escape_for_shell sp @ ''"'')\<close>
    using assms
    by (simp add: build_commands_nth_0 first_command_def system_prompt_option_def or_default_def)
  have later: \<open>build_commands queries system_prompt model ! i =
        ''claude --dangerously-skip-permissions -c -p "'' @ escape_for_shell (queries ! i) @ ''"'' \<and>
      build_commands queries system_prompt model ! i = build_commands queries system_prompt None ! i \<and>
      sh_words (build_commands queries system_prompt model ! i) =
        Some [''claude'', ''--dangerously-skip-permissions'', ''-c'', ''-p'', queries ! i] \<and>
      (\<not> sublist ''--model'' (queries ! i) \<longrightarrow>
         \<not> sublist ''--model'' (build_commands queries system_prompt model ! i))\<close>
    if "0 < i \<and> i < length queries" for i
  proof -
    from that have "build_commands queries system_prompt m ! i = continuation_command (queries ! i)" for m
      by (simp add: build_commands_nth_later)
    then show ?thesis
      by (simp add: sh_words_continuation_command no_model_flag)
        (simp add: continuation_command_def)
  qed
  from first later show ?thesis
    by blast
qed

theorem model_selection_first_command_only_witness:
  \<open>[''explain this repo'', ''add a test'', ''commit''] \<noteq> [] \<and>
   build_commands [''explain this repo'', ''add a test'', ''commit''] None None ! 0 =
     ''claude --model claude-sonnet-4-5-20250929 --dangerously-skip-permissions -p "explain this repo"'' \<and>
   build_commands [''explain this repo'', ''add a test'', ''commit''] None (Some ''deepseek-chat'') ! 0 =
     ''claude --model deepseek-chat --dangerously-skip-permissions -p "explain this repo"'' \<and>
   build_commands [''explain this repo'', ''add a test'', ''commit''] None (Some ''deepseek-chat'') ! 2 =
     ''claude --dangerously-skip-permissions -c -p "commit"'' \<and>
   \<not> sublist ''--model''
     (build_commands [''explain this repo'', ''add a test'', ''commit''] None (Some ''deepseek-chat'') ! 2)\<close>
proof -
  have ne: "[''explain this repo'', ''add a test'', ''commit''] \<noteq> []"
    by simp
  have esc: "escape_for_shell ''explain this repo'' = ''explain this repo''"
    "escape_for_shell ''commit'' = ''commit''"
    by (simp_all add: escape_for_shell_def special_chars)
  note t = model_selection_first_command_only [OF ne, of None]
  from t [of None, THEN conjunct1]
  have a: \<open>build_commands [''explain this repo'', ''add a test'', ''commit''] None None ! 0 =
     ''claude --model claude-sonnet-4-5-20250929 --dangerously-skip-permissions -p "explain this repo"''\<close>
    by (simp add: esc DEFAULT_MODEL_def)
  from t [of "Some ''deepseek-chat''", THEN conjunct1]
  have b: \<open>build_commands [''explain this repo'', ''add a test'', ''commit''] None (Some ''deepseek-chat'') ! 0 =
     ''claude --model deepseek-chat --dangerously-skip-permissions -p "explain this repo"''\<close>
    by (simp add: esc)
  have i: "0 < (2::nat) \<and> 2 < length [''explain this repo'', ''add a test'', ''commit'']"
    by simp
  note t2 = t [of "Some ''deepseek-chat''", THEN conjunct2, THEN spec, of 2, THEN mp, OF i]
  have nq: "\<not> sublist ''--model'' ([''explain this repo'', ''add a test'', ''commit''] ! 2)"
    by code_simp
  note d = t2 [THEN conjunct2, THEN conjunct2, THEN conjunct2, THEN mp, OF nq]
  from t2 [THEN conjunct1]
  have c: \<open>build_commands [''explain this repo'', ''add a test'', ''commit''] None (Some ''deepseek-chat'') ! 2 =
     ''claude --dangerously-skip-permissions -c -p "commit"''\<close>
    by (simp add: esc)
  from ne a b c d show ?thesis
    by blast
qed

text \<open>
  C4. For every list of queries, \<open>build_commands\<close> returns as many commands as there are
  queries, the empty list for no query, and the command at index \<open>i\<close> is built from the
  query at index \<open>i\<close>: the first command from the first query (with the model and the
  system prompt), every later one from its own query alone. Each command holds its own
  query: in the first command, after \<open>claude --model <model> --dangerously-skip-permissions -p\<close>,
  the shell reads a double-quoted string that is the query at index 0, and what follows it
  is the system prompt option or nothing; a command at an index \<open>i > 0\<close> is read by the
  shell as the five words \<open>claude\<close>, \<open>--dangerously-skip-permissions\<close>, \<open>-c\<close>, \<open>-p\<close> and
  the query at index \<open>i\<close>.
\<close>

theorem build_commands_index_aligned:
  \<open>length (build_commands queries system_prompt model) = length queries \<and>
   build_commands [] system_prompt model = [] \<and>
   (\<forall>i < length queries.
      build_commands queries system_prompt model ! i =
        (if i = 0 then first_command (or_default model DEFAULT_MODEL) system_prompt (queries ! i)
         else continuation_command (queries ! i)) \<and>
      (if i = 0 then
         dq_read (drop (length (''claude --model '' @ or_default model DEFAULT_MODEL
                                  @ '' --dangerously-skip-permissions -p "''))
                    (build_commands queries system_prompt model ! i)) =
           Some (queries ! i,
                 case system_prompt of
                   None \<Rightarrow> []
                 | Some sp \<Rightarrow>
                     if sp = [] then [] else '' --system-prompt "'' @ escape_for_shell sp @ ''"'')
       else
         sh_words (build_commands queries system_prompt model ! i) =
           Some [''claude'', ''--dangerously-skip-permissions'', ''-c'', ''-p'', queries ! i]))\<close>
proof -
  have len: "length (build_commands queries system_prompt model) = length queries"
    by (rule length_build_commands)
  have nil: "build_commands [] system_prompt model = []"
    by (rule build_commands_Nil)
  have idx: \<open>build_commands queries system_prompt model ! i =
        (if i = 0 then first_command (or_default model DEFAULT_MODEL) system_prompt (queries ! i)
         else continuation_command (queries ! i)) \<and>
      (if i = 0 then
         dq_read (drop (length (''claude --model '' @ or_default model DEFAULT_MODEL
                                  @ '' --dangerously-skip-permissions -p "''))
                    (build_commands queries system_prompt model ! i)) =
           Some (queries ! i,
                 case system_prompt of
                   None \<Rightarrow> []
                 | Some sp \<Rightarrow>
                     if sp = [] then [] else '' --system-prompt "'' @ escape_for_shell sp @ ''"'')
       else
         sh_words (build_commands queries system_prompt model ! i) =
           Some [''claude'', ''--dangerously-skip-permissions'', ''-c'', ''-p'', queries ! i])\<close>
    if "i < length queries" for i
  proof (cases "i = 0")
    case True
    with that have "queries \<noteq> []"
      by auto
    then have "build_commands queries system_prompt model ! 0 =
               first_command (or_default model DEFAULT_MODEL) system_prompt (queries ! 0)"
      by (rule build_commands_nth_0)
    with True show ?thesis
      by (simp only: dq_read_first_command if_True system_prompt_option_def simp_thms)
  next
    case False
    with that have "build_commands queries system_prompt model ! i = continuation_command (queries ! i)"
      by (simp add: build_commands_nth_later)
    with False show ?thesis
      by (simp only: sh_words_continuation_command if_False simp_thms)
  qed
  from len nil idx show ?thesis
    by blast
qed

theorem build_commands_index_aligned_witness:
  \<open>length (build_commands [''a'', ''b'', ''c''] None None) = 3 \<and>
   build_commands [''a'', ''b'', ''c''] None None ! 2 = continuation_command ''c'' \<and>
   sh_words (build_commands [''a'', ''b'', ''c''] None None ! 2) =
     Some [''claude'', ''--dangerously-skip-permissions'', ''-c'', ''-p'', ''c''] \<and>
   dq_read (drop (length (''claude --model '' @ DEFAULT_MODEL @ '' --dangerously-skip-permissions -p "''))
              (build_commands [''a'', ''b'', ''c''] None None ! 0)) = Some (''a'', [])\<close>
proof -
  note t = build_commands_index_aligned [of "[''a'', ''b'', ''c'']" None None]
  from t [THEN conjunct1]
  have a: "length (build_commands [''a'', ''b'', ''c''] None None) = 3"
    by simp
  have i: "(2::nat) < length [''a'', ''b'', ''c'']"
    by simp
  note t2 = t [THEN conjunct2, THEN conjunct2, THEN spec, of 2, THEN mp, OF i]
  from t2 [THEN conjunct1]
  have b: "build_commands [''a'', ''b'', ''c''] None None ! 2 = continuation_command ''c''"
    by simp
  from t2 [THEN conjunct2]
  have c: "sh_words (build_commands [''a'', ''b'', ''c''] None None ! 2) =
     Some [''claude'', ''--dangerously-skip-permissions'', ''-c'', ''-p'', ''c'']"
    by simp
  have j: "(0::nat) < length [''a'', ''b'', ''c'']"
    by simp
  from t [THEN conjunct2, THEN conjunct2, THEN spec, of 0, THEN mp, OF j, THEN conjunct2]
  have d: \<open>dq_read (drop (length (''claude --model '' @ DEFAULT_MODEL @ '' --dangerously-skip-permissions -p "''))
              (build_commands [''a'', ''b'', ''c''] None None ! 0)) = Some (''a'', [])\<close>
    by (simp add: or_default_def)
  from a b c d show ?thesis
    by blast
qed

text \<open>
  C5. For every proxy endpoint and every model selector, \<open>get_docker_env\<close> returns a
  mapping that is not empty and has exactly the two keys \<open>ANTHROPIC_BASE_URL\<close> and
  \<open>ANTHROPIC_API_KEY\<close>; the first is bound to the proxy endpoint, the second to the
  placeholder \<open>fake-key\<close>. The result is a function of the two arguments alone, so two
  calls with the same inputs return the same mapping.
\<close>

theorem get_docker_env_fixed_keys:
  "dom (get_docker_env proxy_url model) = {''ANTHROPIC_BASE_URL'', ''ANTHROPIC_API_KEY''} \<and>
   card (dom (get_docker_env proxy_url model)) = 2 \<and>
   get_docker_env proxy_url model ''ANTHROPIC_BASE_URL'' = Some proxy_url \<and>
   get_docker_env proxy_url model ''ANTHROPIC_API_KEY'' = Some ''fake-key'' \<and>
   get_docker_env proxy_url model \<noteq> Map.empty"
proof -
  have d: "dom (get_docker_env proxy_url model) = {''ANTHROPIC_BASE_URL'', ''ANTHROPIC_API_KEY''}"
    by (auto simp: get_docker_env_def)
  have v: "get_docker_env proxy_url model ''ANTHROPIC_BASE_URL'' = Some proxy_url"
    "get_docker_env proxy_url model ''ANTHROPIC_API_KEY'' = Some ''fake-key''"
    by (simp_all add: get_docker_env_def)
  from v have ne: "get_docker_env proxy_url model \<noteq> Map.empty"
    by (metis option.distinct(1))
  from d have c: "card (dom (get_docker_env proxy_url model)) = 2"
    by simp
  from d c v ne show ?thesis
    by blast
qed

text \<open>
  C6. For every proxy endpoint without a single quote, the setup script is
  \<open>mkdir -p ~/.claude && echo '<payload>' > ~/.claude/settings.json\<close>: it creates the
  configuration directory first and then writes one file, and its single-quoted string
  ends where the script closes it. Read as JSON, the payload is the object with exactly
  two members: \<open>env\<close>, holding the proxy endpoint under \<open>ANTHROPIC_BASE_URL\<close>, and
  \<open>permissions\<close>, holding the list \<open>ALLOWED_PERMISSIONS\<close> under \<open>allow\<close>.
\<close>

theorem setup_script_payload_decodes:
  assumes "squote \<notin> set proxy_url"
  shows "\<exists>payload.
           split_single_quoted (get_setup_script proxy_url model) =
             Some (''mkdir -p ~/.claude && echo '', payload, '' > ~/.claude/settings.json'') \<and>
           json_loads payload =
             Some (JDict [(''env'', JDict [(''ANTHROPIC_BASE_URL'', JStr proxy_url)]),
                          (''permissions'', JDict [(''allow'', JList (map JStr ALLOWED_PERMISSIONS))])])"
  using split_single_quoted_setup_script [OF assms, of model] json_loads_settings [of proxy_url]
  unfolding settings_of_def by blast

theorem setup_script_payload_decodes_witness:
  "squote \<notin> set ''http://host.docker.internal:4000'' \<and>
   (\<exists>payload.
      split_single_quoted (get_setup_script ''http://host.docker.internal:4000'' None) =
        Some (''mkdir -p ~/.claude && echo '', payload, '' > ~/.claude/settings.json'') \<and>
      json_loads payload =
        Some (JDict [(''env'', JDict [(''ANTHROPIC_BASE_URL'', JStr ''http://host.docker.internal:4000'')]),
                     (''permissions'', JDict [(''allow'', JList (map JStr ALLOWED_PERMISSIONS))])]))"
proof -
  have h: "squote \<notin> set ''http://host.docker.internal:4000''"
    by (simp add: squote_def)
  from h setup_script_payload_decodes [OF h, of None] show ?thesis
    by blast
qed

text \<open>
  The empty string is a model selector outside the supported list, and it is not passed
  through: \<open>model or DEFAULT_MODEL\<close> replaces it by the default model, although the
  selector is not absent.
\<close>

theorem empty_model_counterexample:
  \<open>[] \<notin> set SUPPORTED_MODELS \<and>
   build_commands [''list files''] None (Some []) =
     [''claude --model claude-sonnet-4-5-20250929 --dangerously-skip-permissions -p "list files"''] \<and>
   build_commands [''list files''] None (Some []) \<noteq>
     [''claude --model '' @ [] @ '' --dangerously-skip-permissions -p "list files"'']\<close>
  by (simp add: SUPPORTED_MODELS_def build_commands_def or_default_def DEFAULT_MODEL_def
      escape_for_shell_def special_chars)

text \<open>
  C7, as the code has it. The three operations have no failing branch: they are total
  functions of their string arguments. A model selector that is not empty is written into
  the first command as it is, whether or not it is a supported model; the default model is
  substituted when the selector is absent and also when it is the empty string. The model
  selector changes nothing else: not the later commands, not the environment, not the
  setup script.
\<close>

theorem model_passed_through_unvalidated:
  \<open>(model_name \<noteq> [] \<longrightarrow>
      build_commands (query # queries) system_prompt (Some model_name) ! 0 =
        ''claude --model '' @ model_name @ '' --dangerously-skip-permissions -p "''
          @ escape_for_shell query @ ''"''
          @ (case system_prompt of
               None \<Rightarrow> []
             | Some sp \<Rightarrow> if sp = [] then [] else '' --system-prompt "'' @ escape_for_shell sp @ ''"'')) \<and>
   build_commands (query # queries) system_prompt None ! 0 =
     ''claude --model '' @ DEFAULT_MODEL @ '' --dangerously-skip-permissions -p "''
       @ escape_for_shell query @ ''"''
       @ (case system_prompt of
            None \<Rightarrow> []
          | Some sp \<Rightarrow> if sp = [] then [] else '' --system-prompt "'' @ escape_for_shell sp @ ''"'') \<and>
   build_commands (query # queries) system_prompt (Some []) =
     build_commands (query # queries) system_prompt None \<and>
   tl (build_commands (query # queries) system_prompt model) =
     tl (build_commands (query # queries) system_prompt None) \<and>
   length (build_commands (query # queries) system_prompt model) = Suc (length queries) \<and>
   get_docker_env proxy_url model = get_docker_env proxy_url None \<and>
   get_setup_script proxy_url model = get_setup_script proxy_url None\<close>
  by (simp add: build_commands_Cons first_command_def system_prompt_option_def or_default_def
      get_docker_env_def get_setup_script_def)

theorem model_passed_through_unvalidated_witness:
  \<open>''gpt-4'' \<noteq> [] \<and> ''gpt-4'' \<notin> set SUPPORTED_MODELS \<and>
   build_commands [''list files''] None (Some ''gpt-4'') ! 0 =
     ''claude --model gpt-4 --dangerously-skip-permissions -p "list files"''\<close>
proof -
  have ne: "''gpt-4'' \<noteq> []"
    by simp
  have out: "''gpt-4'' \<notin> set SUPPORTED_MODELS"
    by (simp add: SUPPORTED_MODELS_def)
  have esc: "escape_for_shell ''list files'' = ''list files''"
    by (simp add: escape_for_shell_def special_chars)
  from model_passed_through_unvalidated [of "''gpt-4''" "''list files''" "[]" None,
      THEN conjunct1, THEN mp, OF ne]
  have a: \<open>build_commands [''list files''] None (Some ''gpt-4'') ! 0 =
     ''claude --model gpt-4 --dangerously-skip-permissions -p "list files"''\<close>
    by (simp add: esc)
  from ne out a show ?thesis
    by blast
qed

text \<open>
  C8. The scenario of the specification: for the queries \<open>list files\<close> and
  \<open>now delete the largest one\<close>, the system prompt \<open>be careful\<close> and no model,
  \<open>build_commands\<close> returns two commands. The first holds the default model, the escaped
  query and the escaped system prompt (escaping changes none of the three texts); the
  second is the continuation command holding only the escaped second query, with neither
  \<open>--model\<close> nor \<open>--system-prompt\<close> in it.
\<close>

theorem build_commands_scenario:
  \<open>build_commands [''list files'', ''now delete the largest one''] (Some ''be careful'') None =
     [''claude --model claude-sonnet-4-5-20250929 --dangerously-skip-permissions -p "list files" --system-prompt "be careful"'',
      ''claude --dangerously-skip-permissions -c -p "now delete the largest one"''] \<and>
   escape_for_shell ''list files'' = ''list files'' \<and>
   escape_for_shell ''be careful'' = ''be careful'' \<and>
   escape_for_shell ''now delete the largest one'' = ''now delete the largest one'' \<and>
   sublist DEFAULT_MODEL
     (build_commands [''list files'', ''now delete the largest one''] (Some ''be careful'') None ! 0) \<and>
   sublist (''-p "'' @ escape_for_shell ''list files'' @ ''"'')
     (build_commands [''list files'', ''now delete the largest one''] (Some ''be careful'') None ! 0) \<and>
   sublist (''--system-prompt "'' @ escape_for_shell ''be careful'' @ ''"'')
     (build_commands [''list files'', ''now delete the largest one''] (Some ''be careful'') None ! 0) \<and>
   build_commands [''list files'', ''now delete the largest one''] (Some ''be careful'') None ! 1 =
     ''claude --dangerously-skip-permissions -c -p "''
       @ escape_for_shell ''now delete the largest one'' @ ''"'' \<and>
   \<not> sublist ''--model''
     (build_commands [''list files'', ''now delete the largest one''] (Some ''be careful'') None ! 1) \<and>
   \<not> sublist ''--system-prompt''
     (build_commands [''list files'', ''now delete the largest one''] (Some ''be careful'') None ! 1) \<and>
   sh_words (build_commands [''list files'', ''now delete the largest one''] (Some ''be careful'') None ! 1) =
     Some [''claude'', ''--dangerously-skip-permissions'', ''-c'', ''-p'', ''now delete the largest one'']\<close>
proof -
  have esc: "escape_for_shell ''list files'' = ''list files''"
    "escape_for_shell ''be careful'' = ''be careful''"
    "escape_for_shell ''now delete the largest one'' = ''now delete the largest one''"
    by (simp_all add: escape_for_shell_def special_chars)
  have cmds: \<open>build_commands [''list files'', ''now delete the largest one''] (Some ''be careful'') None =
     [''claude --model claude-sonnet-4-5-20250929 --dangerously-skip-permissions -p "list files" --system-prompt "be careful"'',
      ''claude --dangerously-skip-permissions -c -p "now delete the largest one"'']\<close>
    by (simp add: build_commands_Cons first_command_def continuation_command_def
        system_prompt_option_def or_default_def DEFAULT_MODEL_def esc)
  have m: \<open>sublist ''claude-sonnet-4-5-20250929''
     ''claude --model claude-sonnet-4-5-20250929 --dangerously-skip-permissions -p "list files" --system-prompt "be careful"''\<close>
    by code_simp
  have q: \<open>sublist ''-p "list files"''
     ''claude --model claude-sonnet-4-5-20250929 --dangerously-skip-permissions -p "list files" --system-prompt "be careful"''\<close>
    by code_simp
  have p: \<open>sublist ''--system-prompt "be careful"''
     ''claude --model claude-sonnet-4-5-20250929 --dangerously-skip-permissions -p "list files" --system-prompt "be careful"''\<close>
    by code_simp
  have nm: \<open>\<not> sublist ''--model'' ''claude --dangerously-skip-permissions -c -p "now delete the largest one"''\<close>
    by code_simp
  have np: \<open>\<not> sublist ''--system-prompt'' ''claude --dangerously-skip-permissions -c -p "now delete the largest one"''\<close>
    by code_simp
  have w: \<open>sh_words ''claude --dangerously-skip-permissions -c -p "now delete the largest one"'' =
     Some [''claude'', ''--dangerously-skip-permissions'', ''-c'', ''-p'', ''now delete the largest one'']\<close>
    using sh_words_continuation_command [of "''now delete the largest one''"]
    by (simp add: continuation_command_def esc)
  from esc cmds m q p nm np w show ?thesis
    by (simp add: DEFAULT_MODEL_def)
qed

text \<open>
  C9. The model argument has no effect on \<open>get_docker_env\<close> and \<open>get_setup_script\<close>: for
  every proxy endpoint and any two model selectors, present or absent, each of the two
  operations returns the same result. Of the three operations only \<open>build_commands\<close>
  depends on the model selector.
\<close>

theorem model_ignored_by_env_and_setup:
  "get_docker_env proxy_url model1 = get_docker_env proxy_url model2 \<and>
   get_setup_script proxy_url model1 = get_setup_script proxy_url model2 \<and>
   build_commands [''hi''] None (Some ''gemini-3-pro'') \<noteq>
     build_commands [''hi''] None (Some ''deepseek-chat'')"
  by (simp add: get_docker_env_def get_setup_script_def build_commands_Cons first_command_def
      or_default_def)

text \<open>
  C10. \<open>DEFAULT_MODEL\<close> is one of \<open>SUPPORTED_MODELS\<close>, so the model that
  \<open>build_commands\<close> writes into the first command when the model selector is absent is a
  supported model.
\<close>

theorem default_model_supported:
  \<open>DEFAULT_MODEL \<in> set SUPPORTED_MODELS \<and>
   or_default None DEFAULT_MODEL \<in> set SUPPORTED_MODELS \<and>
   build_commands (query # queries) system_prompt None ! 0 =
     ''claude --model '' @ DEFAULT_MODEL @ '' --dangerously-skip-permissions -p "''
       @ escape_for_shell query @ ''"''
       @ (case system_prompt of
            None \<Rightarrow> []
          | Some sp \<Rightarrow> if sp = [] then [] else '' --system-prompt "'' @ escape_for_shell sp @ ''"'')\<close>
proof -
  have "DEFAULT_MODEL \<in> set SUPPORTED_MODELS"
    by (simp add: DEFAULT_MODEL_def SUPPORTED_MODELS_def)
  moreover have "or_default None DEFAULT_MODEL = DEFAULT_MODEL"
    by (simp add: or_default_def)
  ultimately show ?thesis
    by (simp add: build_commands_Cons first_command_def system_prompt_option_def)
qed

end
